theory Spec2Isabelle
  imports Complex_Main "HOL-Library.Word"
begin

section \<open>Protocol constants (index.js, lines 14-31)\<close>

text \<open>The module constants are JavaScript numbers; \<open>MAX_SIGNAL_DURATION\<close> is only
  compared with a Buffer length.\<close>

type_synonym byte = "8 word"

definition PACKET_CONF :: rat where "PACKET_CONF = 0x55"
definition FIN_CONF :: rat where "FIN_CONF = 0x16"
definition FIRMWARE_CMD :: rat where "FIRMWARE_CMD = 0x01"
definition IR_TX_CMD :: rat where "IR_TX_CMD = 0x02"
definition IR_RX_AVAIL_CMD :: rat where "IR_RX_AVAIL_CMD = 0x03"
definition IR_RX_CMD :: rat where "IR_RX_CMD = 0x04"
definition RX_START_CMD :: rat where "RX_START_CMD = 0x05"
definition RX_STOP_CMD :: rat where "RX_STOP_CMD = 0x06"
definition CRC_CMD :: rat where "CRC_CMD = 0x06"
definition MAX_SIGNAL_DURATION :: nat where "MAX_SIGNAL_DURATION = 200"
definition FIRMWARE_VERSION :: rat where "FIRMWARE_VERSION = 0x02"
definition CRC_HIGH :: rat where "CRC_HIGH = 0x79"
definition CRC_LOW :: rat where "CRC_LOW = 0xA8"

section \<open>JavaScript values\<close>

text \<open>
  The values that occur in response templates and in indexed reads of a Buffer.
  JavaScript numbers are modelled as rationals (NaN and the infinities are not
  represented). Reading a Buffer beyond its length yields \<open>undefined\<close>.
\<close>

datatype jsval = JUndefined | JBool bool | JNum rat

text \<open>Abstract equality \<open>==\<close> on these values: a boolean is converted to 0 or 1
  before it is compared with a number; \<open>undefined\<close> equals only itself.\<close>

fun ToNumber :: "bool \<Rightarrow> rat" where
  "ToNumber True = 1"
| "ToNumber False = 0"

fun js_eq :: "jsval \<Rightarrow> jsval \<Rightarrow> bool" where
  "js_eq JUndefined JUndefined = True"
| "js_eq (JBool a) (JBool b) = (a = b)"
| "js_eq (JNum x) (JNum y) = (x = y)"
| "js_eq (JBool a) (JNum y) = (ToNumber a = y)"
| "js_eq (JNum x) (JBool b) = (x = ToNumber b)"
| "js_eq _ _ = False"

text \<open>\<open>values[index]\<close> on a Buffer.\<close>

definition buf_get :: "byte list \<Rightarrow> nat \<Rightarrow> jsval" where
  "buf_get vs i = (if i < length vs then JNum (of_nat (unat (vs ! i))) else JUndefined)"

text \<open>Conversion of a number to a Buffer element when an array is turned into a
  Buffer: the fraction is dropped (towards zero) and the result taken modulo 256.\<close>

definition js_trunc :: "rat \<Rightarrow> int" where
  "js_trunc q = (if q < 0 then - \<lfloor>- q\<rfloor> else \<lfloor>q\<rfloor>)"

definition to_uint8 :: "rat \<Rightarrow> byte" where
  "to_uint8 q = word_of_int (js_trunc q)"

definition new_Buffer :: "rat list \<Rightarrow> byte list" where
  "new_Buffer xs = map to_uint8 xs"

section \<open>Packet codec: \<open>_validateResponse\<close> (lines 310-324)\<close>

text \<open>The loop over \<open>index\<close>; \<open>continue\<close> and falling through both go to
  the next index, \<open>break\<close> leaves with \<open>res = false\<close>.\<close>

function validate_loop :: "byte list \<Rightarrow> jsval list \<Rightarrow> nat \<Rightarrow> bool" where
  "validate_loop vals expected index =
     (if index < length expected then
        (if js_eq (expected ! index) (JBool False) then validate_loop vals expected (index + 1)
         else if \<not> js_eq (expected ! index) (buf_get vals index) then False
         else validate_loop vals expected (index + 1))
      else True)"
  by pat_completeness auto
termination
  by (relation "measure (\<lambda>(vals, expected, index). length expected - index)") auto

declare validate_loop.simps [simp del]

definition validateResponse :: "byte list \<Rightarrow> jsval list \<Rightarrow> bool" where
  "validateResponse vals expected = validate_loop vals expected 0"

section \<open>Transport, errors and observable events\<close>

text \<open>Exceptions raised by the JavaScript runtime.\<close>

datatype js_error = TypeError | ReferenceError | RangeError

text \<open>The \<open>Error\<close> objects the module passes to callbacks or emits, one constructor
  per message; \<open>TransferError\<close> is the \<open>err\<close> handed over by the transport.\<close>

datatype err =
    TransferError
  | InvalidFrequency
  | InvalidBufferLength
  | InvalidBufferSize
  | InvalidRawResponse
  | InvalidRxOnOff
  | CantConnect
  | FirmwareVersionError

text \<open>What \<open>spi.transfer\<close> hands to its completion function: either \<open>err\<close> is set
  and \<open>response\<close> is \<open>undefined\<close>, or \<open>err\<close> is null and \<open>response\<close> is a Buffer.
  A function that suspends at transfers takes the list of the replies the transport will
  deliver, in order; an empty list means the reply is still outstanding.\<close>

datatype reply = Failed | Response "byte list"

datatype event =
    Transfer "byte list"
  | Emit_data "byte list"
  | Emit_error err
  | Emit_ready
  | Callback "err option"
  | IrqOnce
  | IrqRemoveAll
  | SetTimeout nat
  | FirmwareUpdate
  | CheckForFirmwareUpdate byte

text \<open>How a chain of continuations ends: still waiting for a reply, ended without
  calling its callback, ended by an exception, or called its callback with a value.\<close>

datatype 'a completion = Pending | NoCallback | Threw js_error | Done 'a

record driver =
  transmitting :: bool
  listening :: bool
  connected :: bool
  irq_listeners :: nat
  data_listeners :: nat

text \<open>The fields as the constructor leaves them at lines 37-45 (\<open>connected\<close> is not
  set there and is falsy), with no listener on the interrupt pin and no subscriber.\<close>

definition new_driver :: driver where
  "new_driver = \<lparr>transmitting = False, listening = False, connected = False,
     irq_listeners = 0, data_listeners = 0\<rparr>"

text \<open>\<open>_validateResponse\<close> applied to what a transfer delivered. When \<open>response\<close> is
  \<open>undefined\<close>, the test \<open>expected[index] == false\<close> still comes first, and the read
  \<open>values[index]\<close> at the first entry that is not skipped raises a TypeError.\<close>

definition validate_reply :: "reply \<Rightarrow> jsval list \<Rightarrow> js_error + bool" where
  "validate_reply r expected =
     (case r of
        Response vals \<Rightarrow> Inr (validateResponse vals expected)
      | Failed \<Rightarrow> if list_all (\<lambda>e. js_eq e (JBool False)) expected then Inr True
                  else Inl TypeError)"

section \<open>TX duration encoder (lines 207-267)\<close>

text \<open>\<open>_constructTXPacket\<close>: the array \<open>tx\<close> of numbers, then \<open>new Buffer(tx)\<close>.\<close>

definition constructTXPacket :: "rat \<Rightarrow> byte list \<Rightarrow> byte list" where
  "constructTXPacket frequency signalDurations =
     new_Buffer
       ([IR_TX_CMD, frequency, of_nat (length signalDurations) / 2]
        @ map (\<lambda>b. of_nat (unat b)) signalDurations
        @ [0x00, FIN_CONF])"

text \<open>The template the completion function checks the response against (line 236).\<close>

definition tx_expected :: "rat \<Rightarrow> byte list \<Rightarrow> jsval list" where
  "tx_expected frequency signalDurations =
     [JNum PACKET_CONF, JNum IR_TX_CMD, JNum frequency,
      JNum (of_nat (length signalDurations) / 2)]"

text \<open>The synchronous part of \<open>sendRawSignal\<close>. \<open>cb\<close> tells whether a callback was
  passed. The third check (odd length) calls the callback and has no \<open>return\<close>.\<close>

definition sendRawSignal :: "driver \<Rightarrow> rat \<Rightarrow> byte list \<Rightarrow> bool \<Rightarrow> driver \<times> event list" where
  "sendRawSignal st frequency signalDurations cb =
     (if frequency \<le> 0 then
        (st, if cb then [Callback (Some InvalidFrequency)] else [])
      else if length signalDurations > MAX_SIGNAL_DURATION then
        (st, if cb then [Callback (Some InvalidBufferLength)] else [])
      else
        (st\<lparr>transmitting := True\<rparr>,
         (if length signalDurations mod 2 \<noteq> 0 \<and> cb
          then [Callback (Some InvalidBufferSize)] else [])
         @ [Transfer (constructTXPacket frequency signalDurations)]))"

text \<open>The completion function \<open>spiComplete\<close> of that transfer (lines 231-241).\<close>

definition sendRawSignal_spiComplete ::
  "driver \<Rightarrow> rat \<Rightarrow> byte list \<Rightarrow> bool \<Rightarrow> reply \<Rightarrow> driver \<times> event list \<times> (err option) completion" where
  "sendRawSignal_spiComplete st frequency signalDurations cb r =
     (let st' = st\<lparr>transmitting := False\<rparr> in
      case validate_reply r (tx_expected frequency signalDurations) of
        Inl e \<Rightarrow> (st', [], Threw e)
      | Inr valid \<Rightarrow>
          (let err = (if \<not> valid then Some InvalidRawResponse else None) in
           (st', if cb then [Callback err] else [], Done err)))"

section \<open>Listening (lines 50-62 and 123-149)\<close>

definition setListening_cmd :: "bool \<Rightarrow> rat" where
  "setListening_cmd set' = (if set' then RX_START_CMD else RX_STOP_CMD)"

text \<open>The synchronous part of \<open>setListening\<close>: the transfer is issued whatever the
  current value of \<open>listening\<close> is.\<close>

definition setListening :: "bool \<Rightarrow> event list" where
  "setListening set' = [Transfer (new_Buffer [setListening_cmd set', 0x00, 0x00])]"

text \<open>Its completion function \<open>listeningSet\<close> (lines 127-148).\<close>

definition listeningSet ::
  "driver \<Rightarrow> bool \<Rightarrow> bool \<Rightarrow> reply \<Rightarrow> driver \<times> event list \<times> (err option) completion" where
  "listeningSet st set' cb r =
     (case validate_reply r [JNum PACKET_CONF, JNum (setListening_cmd set')] of
        Inl e \<Rightarrow> (st, [], Threw e)
      | Inr valid \<Rightarrow>
          if \<not> valid then
            (st, if cb then [Callback (Some InvalidRxOnOff)] else [], Done (Some InvalidRxOnOff))
          else
            (let st1 = st\<lparr>listening := set'\<rparr> in
             if \<not> listening st1 then
               (st1\<lparr>irq_listeners := 0\<rparr>,
                IrqRemoveAll # (if cb then [Callback None] else []), Done None)
             else if irq_listeners st1 = 0 then
               (st1\<lparr>irq_listeners := 1\<rparr>,
                IrqOnce # (if cb then [Callback None] else []), Done None)
             else
               (st1, if cb then [Callback None] else [], Done None)))"

text \<open>The handlers the constructor installs for \<open>newListener\<close> and
  \<open>removeListener\<close>. \<open>this.listeners(event).length\<close> is \<open>data_listeners\<close> when
  the event is \<open>data\<close>.\<close>

definition on_newListener :: "driver \<Rightarrow> string \<Rightarrow> event list" where
  "on_newListener st event =
     (if event = ''data'' \<and> data_listeners st = 0 then setListening True else [])"

definition on_removeListener :: "driver \<Rightarrow> string \<Rightarrow> event list" where
  "on_removeListener st event =
     (if event = ''data'' \<and> data_listeners st = 0 then setListening False else [])"

text \<open>The emitter of the host (Node's \<open>events\<close>): \<open>newListener\<close> is emitted before
  the listener is added, \<open>removeListener\<close> after it has been removed, and only when a
  listener was removed.\<close>

definition addListener :: "driver \<Rightarrow> string \<Rightarrow> driver \<times> event list" where
  "addListener st event =
     (let ev = on_newListener st event in
      (if event = ''data'' then st\<lparr>data_listeners := data_listeners st + 1\<rparr> else st, ev))"

definition removeListener :: "driver \<Rightarrow> string \<Rightarrow> driver \<times> event list" where
  "removeListener st event =
     (if event = ''data'' then
        (if data_listeners st = 0 then (st, [])
         else (let st' = st\<lparr>data_listeners := data_listeners st - 1\<rparr>
               in (st', on_removeListener st' event)))
      else (st, on_removeListener st event))"

section \<open>RX duration fetcher and interrupt handler (lines 108-121 and 151-197)\<close>

definition rx_avail_query :: "byte list" where
  "rx_avail_query = new_Buffer [IR_RX_AVAIL_CMD, 0x00, 0x00, 0x00]"

definition rx_avail_expected :: "jsval list" where
  "rx_avail_expected = [JNum PACKET_CONF, JNum IR_RX_AVAIL_CMD, JNum 1]"

text \<open>The fetch packet: the header, \<open>numBytes\<close> holes of \<open>new Array(numBytes)\<close> (each
  becomes the byte 0 in the Buffer) and the terminator.\<close>

definition rx_packet :: "nat \<Rightarrow> byte list" where
  "rx_packet numBytes =
     new_Buffer [IR_RX_CMD, 0x00, 0x00] @ replicate numBytes 0 @ new_Buffer [FIN_CONF]"

text \<open>\<open>Buffer.slice(start, stop)\<close> for non-negative arguments: both are clamped to
  the length.\<close>

definition buf_slice :: "byte list \<Rightarrow> nat \<Rightarrow> nat \<Rightarrow> byte list" where
  "buf_slice b start stop = drop start (take stop b)"

text \<open>The two slices of lines 181 and 186; \<open>rxHeader.length\<close> is 3. They are only
  reached with a non-empty response, so \<open>response.length - 1\<close> is not negative.\<close>

definition rx_durations :: "byte list \<Rightarrow> byte list" where
  "rx_durations response =
     (let buf = buf_slice response 3 (length response - 1)
      in buf_slice buf 2 (length response - 1))"

text \<open>Line 189 evaluates the identifier \<open>data\<close>. The module declares no variable of
  that name in any enclosing scope and the host defines no such global, so the
  identifier does not resolve and its evaluation raises a ReferenceError.\<close>

definition global_data :: "jsval option" where
  "global_data = None"

text \<open>The completion function of the fetch transfer (lines 172-193). \<open>Done ()\<close>
  stands for \<open>callback && callback()\<close>.\<close>

definition fetch_spiComplete :: "reply \<Rightarrow> event list \<times> unit completion" where
  "fetch_spiComplete r =
     (case r of
        Failed \<Rightarrow> ([], Threw TypeError)
      | Response response \<Rightarrow>
          (let fin = (if response = [] then JUndefined
                      else buf_get response (length response - 1)) in
           if \<not> js_eq fin (JNum FIN_CONF) then ([], Done ())
           else
             (let buf = rx_durations response in
              case global_data of
                None \<Rightarrow> ([], Threw ReferenceError)
              | Some _ \<Rightarrow> ([Emit_data buf], Done ()))))"

text \<open>\<open>_fetchRXDurations\<close>: the availability query, its completion function and the
  fetch. When the availability response is not valid nothing else happens: the
  \<open>if (valid)\<close> has no else branch. A response without a byte at index 3 gives
  \<open>new Array(NaN)\<close>, a RangeError.\<close>

fun fetchRXDurations :: "reply list \<Rightarrow> event list \<times> unit completion \<times> reply list" where
  "fetchRXDurations [] = ([Transfer rx_avail_query], Pending, [])"
| "fetchRXDurations (Failed # rs) =
     (case validate_reply Failed rx_avail_expected of
        Inl e \<Rightarrow> ([Transfer rx_avail_query], Threw e, rs)
      | Inr _ \<Rightarrow> ([Transfer rx_avail_query], Threw TypeError, rs))"
| "fetchRXDurations (Response response # rs) =
     (if validateResponse response rx_avail_expected then
        (case buf_get response 3 of
           JNum numInt16 \<Rightarrow>
             (let numBytes = numInt16 * 2;
                  packet = rx_packet (nat \<lfloor>numBytes\<rfloor>) in
              case rs of
                [] \<Rightarrow> ([Transfer rx_avail_query, Transfer packet], Pending, [])
              | r' # rs' \<Rightarrow>
                  (case fetch_spiComplete r' of
                     (ev, c) \<Rightarrow> ([Transfer rx_avail_query, Transfer packet] @ ev, c, rs')))
         | _ \<Rightarrow> ([Transfer rx_avail_query], Threw RangeError, rs))
      else ([Transfer rx_avail_query], NoCallback, rs))"

text \<open>\<open>_IRQHandler\<close>. The callback \<open>fetched\<close> arms one listener with
  \<open>irq.once\<close>; the other branch only sets a timer that calls the handler again.\<close>

definition IRQHandler :: "driver \<Rightarrow> reply list \<Rightarrow> driver \<times> event list \<times> reply list" where
  "IRQHandler st replies =
     (if \<not> transmitting st then
        (case fetchRXDurations replies of
           (ev, c, rest) \<Rightarrow>
             (case c of
                Done _ \<Rightarrow> (st\<lparr>irq_listeners := irq_listeners st + 1\<rparr>, ev @ [IrqOnce], rest)
              | _ \<Rightarrow> (st, ev, rest)))
      else (st, [SetTimeout 500], replies))"

text \<open>The interrupt fires: a listener registered with \<open>once\<close> is removed before it
  runs.\<close>

definition irq_high :: "driver \<Rightarrow> reply list \<Rightarrow> driver \<times> event list \<times> reply list" where
  "irq_high st replies = IRQHandler (st\<lparr>irq_listeners := irq_listeners st - 1\<rparr>) replies"

section \<open>Firmware sync (lines 326-366)\<close>

definition crc_query :: "byte list" where
  "crc_query = new_Buffer [CRC_CMD, 0x00, 0x00, 0x00]"

definition crc_expected :: "jsval list" where
  "crc_expected = [JBool False, JNum CRC_CMD, JNum CRC_HIGH, JNum CRC_LOW]"

text \<open>Modelled from the spec: \<open>firmware.update\<close> of \<open>lib/firmware\<close>, which is not among
  the sources. The spec gives the Firmware Programmer the contract
  \<open>flash(image) -> completion\<close>: it flashes, then runs the completion function.\<close>

definition firmware_update :: "event list" where
  "firmware_update = [FirmwareUpdate]"

text \<open>\<open>readFirmwareCRC\<close> and the method \<open>updateFirmware\<close>, which call each other.\<close>

function readFirmwareCRC :: "rat \<Rightarrow> reply list \<Rightarrow> event list \<times> (err option) completion \<times> reply list"
  and updateFirmware :: "reply list \<Rightarrow> event list \<times> (err option) completion \<times> reply list" where
  "readFirmwareCRC retries [] = ([Transfer crc_query], Pending, [])"
| "readFirmwareCRC retries (Failed # rs) = ([Transfer crc_query], Done (Some TransferError), rs)"
| "readFirmwareCRC retries (Response res # rs) =
     (if validateResponse res crc_expected \<and> length res = 4 then
        ([Transfer crc_query], Done None, rs)
      else
        (case (if retries - 1 > 0 then readFirmwareCRC (retries - 1) rs
               else updateFirmware rs) of
           (ev, c, rest) \<Rightarrow> (Transfer crc_query # ev, c, rest)))"
| "updateFirmware rs =
     (case readFirmwareCRC 5 rs of
        (ev, c, rest) \<Rightarrow> (firmware_update @ SetTimeout 500 # ev, c, rest))"
  by pat_completeness auto
termination
  by (relation "measure (\<lambda>x. case x of Inl (retries, rs) \<Rightarrow> 2 * length rs
                                      | Inr rs \<Rightarrow> 2 * length rs + 1)") auto

definition checkForFirmwareUpdate ::
  "byte \<Rightarrow> reply list \<Rightarrow> event list \<times> (err option) completion \<times> reply list" where
  "checkForFirmwareUpdate version replies =
     (if of_nat (unat version) < FIRMWARE_VERSION then updateFirmware replies
      else ([], Done None, replies))"

section \<open>Handshake and constructor (lines 35-104 and 269-308)\<close>

definition firmware_query :: "byte list" where
  "firmware_query = new_Buffer [FIRMWARE_CMD, 0x00, 0x00]"

text \<open>The completion function of \<open>getFirmwareVersion\<close>: what it passes to its
  callback, an error or the version byte.\<close>

definition getFirmwareVersion_spiComplete :: "reply \<Rightarrow> err + byte" where
  "getFirmwareVersion_spiComplete r =
     (case r of
        Failed \<Rightarrow> Inl TransferError
      | Response response \<Rightarrow>
          if validateResponse response [JBool False, JNum FIRMWARE_CMD] \<and> length response = 3
          then Inr (response ! 2)
          else Inl FirmwareVersionError)"

text \<open>\<open>_establishCommunication\<close>; \<open>!retries\<close> holds when \<open>retries\<close> is 0.\<close>

fun establishCommunication ::
  "driver \<Rightarrow> rat \<Rightarrow> reply list \<Rightarrow> driver \<times> event list \<times> (err + byte) completion \<times> reply list" where
  "establishCommunication st retries [] = (st, [Transfer firmware_query], Pending, [])"
| "establishCommunication st retries (r # rs) =
     (case getFirmwareVersion_spiComplete r of
        Inl e \<Rightarrow>
          (if retries - 1 = 0 then (st, [Transfer firmware_query], Done (Inl CantConnect), rs)
           else
             (case establishCommunication st (retries - 1) rs of
                (st', ev, c, rest) \<Rightarrow> (st', Transfer firmware_query # ev, c, rest)))
      | Inr version \<Rightarrow>
          (st\<lparr>connected := True\<rparr>, [Transfer firmware_query], Done (Inr version), rs))"

text \<open>The constructor from line 72 on. \<open>cb\<close> tells whether a callback was passed,
  \<open>subscribers\<close> is the number of \<open>data\<close> listeners when \<open>afterUpdate\<close> runs. The
  variable \<open>listening\<close> of line 92 is computed and not used: \<open>setListening\<close> is called
  with \<open>false\<close>. The function passed to \<open>setImmediate\<close> runs after the transfer has
  been issued and before its reply.\<close>

definition Infrared :: "bool \<Rightarrow> nat \<Rightarrow> reply list \<Rightarrow> driver \<times> event list" where
  "Infrared cb subscribers replies =
     (case establishCommunication new_driver 3 replies of
        (st1, ev1, c1, rest1) \<Rightarrow>
          (case c1 of
             Done (Inl e) \<Rightarrow> (st1, ev1 @ [Emit_error e])
           | Done (Inr version) \<Rightarrow>
               (case checkForFirmwareUpdate version rest1 of
                  (ev2, c2, rest2) \<Rightarrow>
                    (case c2 of
                       Done (Some e) \<Rightarrow>
                         (st1, ev1 @ CheckForFirmwareUpdate version # ev2 @ [Emit_error e])
                     | Done None \<Rightarrow>
                         (let st2 = st1\<lparr>connected := True, data_listeners := subscribers\<rparr>;
                              listening = (if data_listeners st2 \<noteq> 0 then True else False);
                              st3 = st2\<lparr>irq_listeners := irq_listeners st2 + 1\<rparr>;
                              ev3 = ev1 @ CheckForFirmwareUpdate version # ev2
                                    @ setListening False @ [Emit_ready, IrqOnce] in
                          case rest2 of
                            [] \<Rightarrow> (st3, ev3)
                          | r # _ \<Rightarrow>
                              (case listeningSet st3 False cb r of
                                 (st4, ev4, c4) \<Rightarrow> (st4, ev3 @ ev4)))
                     | _ \<Rightarrow> (st1, ev1 @ CheckForFirmwareUpdate version # ev2)))
           | _ \<Rightarrow> (st1, ev1)))"

section \<open>\<open>timerAbstraction\<close> (lines 368-381)\<close>

text \<open>\<open>readInt16BE\<close> and \<open>writeInt16BE\<close> of the host's Buffer, called without
  \<open>noAssert\<close>: an offset beyond the Buffer and a value outside the signed 16-bit range
  are refused with an exception.\<close>

definition int16BE :: "byte \<Rightarrow> byte \<Rightarrow> int" where
  "int16BE hi lo = sint (word_cat hi lo :: 16 word)"

definition readInt16BE :: "byte list \<Rightarrow> nat \<Rightarrow> js_error + int" where
  "readInt16BE buffer offset =
     (if offset + 2 \<le> length buffer
      then Inr (int16BE (buffer ! offset) (buffer ! (offset + 1)))
      else Inl RangeError)"

definition writeInt16BE :: "byte list \<Rightarrow> int \<Rightarrow> nat \<Rightarrow> js_error + byte list" where
  "writeInt16BE buffer v offset =
     (if v < - 32768 \<or> 32767 < v then Inl RangeError
      else if length buffer < offset + 2 then Inl RangeError
      else Inr (buffer[offset := word_of_int (v div 256), offset + 1 := word_of_int v]))"

function timer_loop :: "byte list \<Rightarrow> nat \<Rightarrow> js_error + byte list" where
  "timer_loop buffer i =
     (if i < length buffer then
        (case readInt16BE buffer i of
           Inl e \<Rightarrow> Inl e
         | Inr raw \<Rightarrow>
             (case writeInt16BE buffer (raw * 50) i of
                Inl e \<Rightarrow> Inl e
              | Inr buffer' \<Rightarrow> timer_loop buffer' (i + 2)))
      else Inr buffer)"
  by pat_completeness auto
termination
  by (relation "measure (\<lambda>(buffer, i). length buffer - i)")
     (auto simp: writeInt16BE_def split: if_splits)

declare timer_loop.simps [simp del]

definition timerAbstraction :: "byte list \<Rightarrow> js_error + byte list" where
  "timerAbstraction buffer = timer_loop buffer 0"

section \<open>Reading traces\<close>

text \<open>Recognisers for events, and the condition under which \<open>gotCRC\<close> takes its
  last branch (the reply is a response that fails the check of line 343).\<close>

fun is_firmware_check :: "event \<Rightarrow> bool" where
  "is_firmware_check (CheckForFirmwareUpdate _) = True"
| "is_firmware_check _ = False"

fun is_callback :: "event \<Rightarrow> bool" where
  "is_callback (Callback _) = True"
| "is_callback _ = False"

definition crc_mismatch :: "reply \<Rightarrow> bool" where
  "crc_mismatch r =
     (case r of
        Failed \<Rightarrow> False
      | Response res \<Rightarrow> \<not> (validateResponse res crc_expected \<and> length res = 4))"

definition rx_stop :: "byte list" where
  "rx_stop = new_Buffer [RX_STOP_CMD, 0x00, 0x00]"

section \<open>Properties\<close>

subsection \<open>Buffers built from arrays of numbers\<close>

lemma to_uint8_numeral [simp]: "to_uint8 (numeral n) = numeral n"
  by (simp add: to_uint8_def js_trunc_def)

lemma to_uint8_0 [simp]: "to_uint8 0 = 0"
  by (simp add: to_uint8_def js_trunc_def)

lemma to_uint8_1 [simp]: "to_uint8 1 = 1"
  by (simp add: to_uint8_def js_trunc_def)

lemma to_uint8_of_nat: "to_uint8 (of_nat n) = of_nat n"
  by (simp add: to_uint8_def js_trunc_def)

lemma to_uint8_byte [simp]: "to_uint8 (unsigned (b :: byte)) = b"
  using to_uint8_of_nat [of "unat b"] by simp

lemma to_uint8_half: "even n \<Longrightarrow> to_uint8 (of_nat n / 2) = of_nat (n div 2)"
proof -
  assume "even n"
  then obtain k where k: "n = 2 * k" by (auto elim: evenE)
  have "(of_nat n :: rat) / 2 = of_nat k" by (simp add: k)
  then show ?thesis by (simp add: to_uint8_of_nat k)
qed

lemma floor_half [simp]: "\<lfloor>(1::rat) / 2\<rfloor> = 0"
  by (simp add: floor_eq_iff)

lemma new_Buffer_simps [simp]:
  "new_Buffer [] = []"
  "new_Buffer (x # xs) = to_uint8 x # new_Buffer xs"
  "new_Buffer (xs @ ys) = new_Buffer xs @ new_Buffer ys"
  by (simp_all add: new_Buffer_def)

lemma new_Buffer_bytes [simp]: "new_Buffer (map unsigned ds) = ds"
  by (induction ds) simp_all

subsection \<open>Response validation\<close>

lemma all_from_step:
  "k < (n::nat) \<Longrightarrow>
     (\<forall>i. k \<le> i \<and> i < n \<longrightarrow> P i) \<longleftrightarrow> (P k \<and> (\<forall>i. k + 1 \<le> i \<and> i < n \<longrightarrow> P i))"
  by (metis Suc_eq_plus1 Suc_leI le_neq_implies_less order_refl Suc_leD)

lemma validate_loop_iff:
  "validate_loop vals expected k \<longleftrightarrow>
     (\<forall>i. k \<le> i \<and> i < length expected \<longrightarrow>
        js_eq (expected ! i) (JBool False) \<or> js_eq (expected ! i) (buf_get vals i))"
proof (induction vals expected k rule: validate_loop.induct)
  case (1 vals expected index)
  show ?case
  proof (cases "index < length expected")
    case False
    then show ?thesis by (auto simp add: validate_loop.simps [of vals expected index])
  next
    case True
    show ?thesis
      unfolding all_from_step [OF True]
      using True "1.IH"
      by (subst validate_loop.simps) auto
  qed
qed

lemma validateResponse_iff:
  "validateResponse vals expected \<longleftrightarrow>
     (\<forall>i<length expected. \<not> js_eq (expected ! i) (JBool False) \<longrightarrow>
        js_eq (expected ! i) (buf_get vals i))"
  by (auto simp: validateResponse_def validate_loop_iff)

lemma validateResponse_eval:
  "validateResponse vals [] = True"
  "validateResponse vals [a] = (js_eq a (JBool False) \<or> js_eq a (buf_get vals 0))"
  "validateResponse vals [a, b] =
     ((js_eq a (JBool False) \<or> js_eq a (buf_get vals 0))
      \<and> (js_eq b (JBool False) \<or> js_eq b (buf_get vals 1)))"
  "validateResponse vals [a, b, c] =
     ((js_eq a (JBool False) \<or> js_eq a (buf_get vals 0))
      \<and> (js_eq b (JBool False) \<or> js_eq b (buf_get vals 1))
      \<and> (js_eq c (JBool False) \<or> js_eq c (buf_get vals 2)))"
  "validateResponse vals [a, b, c, d] =
     ((js_eq a (JBool False) \<or> js_eq a (buf_get vals 0))
      \<and> (js_eq b (JBool False) \<or> js_eq b (buf_get vals 1))
      \<and> (js_eq c (JBool False) \<or> js_eq c (buf_get vals 2))
      \<and> (js_eq d (JBool False) \<or> js_eq d (buf_get vals 3)))"
proof -
  show "validateResponse vals [] = True" by (simp add: validateResponse_iff)
  show "validateResponse vals [a] = (js_eq a (JBool False) \<or> js_eq a (buf_get vals 0))"
    by (auto simp add: validateResponse_iff)
  show "validateResponse vals [a, b] =
     ((js_eq a (JBool False) \<or> js_eq a (buf_get vals 0))
      \<and> (js_eq b (JBool False) \<or> js_eq b (buf_get vals 1)))"
    unfolding validateResponse_iff by (simp add: less_Suc_eq) blast
  show "validateResponse vals [a, b, c] =
     ((js_eq a (JBool False) \<or> js_eq a (buf_get vals 0))
      \<and> (js_eq b (JBool False) \<or> js_eq b (buf_get vals 1))
      \<and> (js_eq c (JBool False) \<or> js_eq c (buf_get vals 2)))"
    unfolding validateResponse_iff by (simp add: less_Suc_eq numeral_2_eq_2) blast
  show "validateResponse vals [a, b, c, d] =
     ((js_eq a (JBool False) \<or> js_eq a (buf_get vals 0))
      \<and> (js_eq b (JBool False) \<or> js_eq b (buf_get vals 1))
      \<and> (js_eq c (JBool False) \<or> js_eq c (buf_get vals 2))
      \<and> (js_eq d (JBool False) \<or> js_eq d (buf_get vals 3)))"
    unfolding validateResponse_iff by (simp add: less_Suc_eq numeral_2_eq_2 numeral_3_eq_3) blast
qed

lemma js_eq_false_iff: "js_eq e (JBool False) \<longleftrightarrow> e = JBool False \<or> e = JNum 0"
  by (cases e) auto

text \<open>
  C3, as amended. \<open>validateResponse\<close> returns true exactly when every expected entry
  that is neither \<open>false\<close> nor the number 0 equals the response byte at the same
  position (a position beyond the response never matches); both \<open>false\<close> and 0 pass
  the test \<open>expected[index] == false\<close> and are skipped. When it returns true,
  replacing any entry by the wildcard \<open>false\<close> still returns true.
\<close>

theorem validateResponse_spec:
  "(validateResponse vals expected \<longleftrightarrow>
      (\<forall>i<length expected. expected ! i \<noteq> JBool False \<and> expected ! i \<noteq> JNum 0 \<longrightarrow>
         js_eq (expected ! i) (buf_get vals i)))
   \<and> (validateResponse vals expected \<and> j < length expected \<longrightarrow>
        validateResponse vals (expected[j := JBool False]))"
proof -
  have a: "validateResponse vals expected \<longleftrightarrow>
      (\<forall>i<length expected. expected ! i \<noteq> JBool False \<and> expected ! i \<noteq> JNum 0 \<longrightarrow>
         js_eq (expected ! i) (buf_get vals i))"
    by (simp add: validateResponse_iff js_eq_false_iff)
  have b: "validateResponse vals (expected[j := JBool False])"
    if "validateResponse vals expected" and "j < length expected"
    using that by (auto simp: validateResponse_iff nth_list_update)
  from a b show ?thesis by blast
qed

theorem validateResponse_spec_witness:
  "validateResponse [0x55, 0x02] [JBool False, JNum 2]
   \<and> \<not> validateResponse [0x55, 0x03] [JBool False, JNum 2]
   \<and> validateResponse [0x55, 0x02] ([JBool False, JNum 2][1 := JBool False])"
proof -
  have "\<forall>i<length [JBool False, JNum 2].
          [JBool False, JNum 2] ! i \<noteq> JBool False \<and> [JBool False, JNum 2] ! i \<noteq> JNum 0 \<longrightarrow>
          js_eq ([JBool False, JNum 2] ! i) (buf_get [0x55, 0x02] i)"
    by (simp add: less_Suc_eq buf_get_def)
  then have v: "validateResponse [0x55, 0x02] [JBool False, JNum 2]"
    using validateResponse_spec [of "[0x55, 0x02]" "[JBool False, JNum 2]" 1] by blast
  have "\<not> (\<forall>i<length [JBool False, JNum 2].
          [JBool False, JNum 2] ! i \<noteq> JBool False \<and> [JBool False, JNum 2] ! i \<noteq> JNum 0 \<longrightarrow>
          js_eq ([JBool False, JNum 2] ! i) (buf_get [0x55, 0x03] i))"
    by (simp add: less_Suc_eq buf_get_def)
  then have n: "\<not> validateResponse [0x55, 0x03] [JBool False, JNum 2]"
    using validateResponse_spec [of "[0x55, 0x03]" "[JBool False, JNum 2]" 1] by blast
  have "validateResponse [0x55, 0x02] ([JBool False, JNum 2][1 := JBool False])"
    using v validateResponse_spec [of "[0x55, 0x02]" "[JBool False, JNum 2]" 1] by simp
  with v n show ?thesis by blast
qed

text \<open>
  The number 0 is not the wildcard \<open>false\<close>, yet it is skipped: the template
  \<open>[0]\<close> accepts the response byte 5.
\<close>

theorem validate_zero_entry_counterexample:
  "validateResponse [0x05] [JNum 0] \<and> JNum 0 \<noteq> JBool False
     \<and> \<not> js_eq (JNum 0) (buf_get [0x05] 0)"
  by (simp add: validateResponse_def validate_loop.simps buf_get_def)

subsection \<open>TX duration encoder\<close>

lemma constructTXPacket_even:
  assumes "even (length ds)"
  shows "constructTXPacket frequency ds =
           [2, to_uint8 frequency, of_nat (length ds div 2)] @ ds @ [0, 0x16]"
  using assms
  by (simp add: constructTXPacket_def IR_TX_CMD_def FIN_CONF_def to_uint8_half)

lemma js_eq_num_buf_get: "js_eq (JNum x) (buf_get r i) \<longleftrightarrow> buf_get r i = JNum x"
  by (auto simp: buf_get_def)

lemma js_eq_num_false: "js_eq (JNum x) (JBool False) \<longleftrightarrow> x = 0"
  by simp

lemma tx_echo_check:
  assumes "0 < frequency" and "even (length ds)"
  shows "validateResponse r (tx_expected frequency ds) \<longleftrightarrow>
           buf_get r 0 = JNum 0x55 \<and> buf_get r 1 = JNum 0x02 \<and> buf_get r 2 = JNum frequency
           \<and> (ds = [] \<or> buf_get r 3 = JNum (of_nat (length ds div 2)))"
proof -
  from assms(2) obtain k where k: "length ds = 2 * k" by (auto elim: evenE)
  have half: "(of_nat (length ds) :: rat) / 2 = of_nat (length ds div 2)"
    by (simp add: k)
  have zero: "(of_nat (length ds div 2) :: rat) = 0 \<longleftrightarrow> ds = []"
    using k by auto
  have f: "frequency \<noteq> 0" using assms(1) by simp
  show ?thesis
    unfolding tx_expected_def half validateResponse_eval js_eq_num_buf_get js_eq_num_false zero
    using f by (simp add: PACKET_CONF_def IR_TX_CMD_def)
qed

lemma sendRawSignal_spiComplete_failed:
  "sendRawSignal_spiComplete st frequency ds cb Failed =
     (st\<lparr>transmitting := False\<rparr>, [], Threw TypeError)"
  by (simp add: sendRawSignal_spiComplete_def validate_reply_def tx_expected_def PACKET_CONF_def)

text \<open>
  C7, as amended. For a frequency above 0 and a duration buffer of even length N, at
  most 200, \<open>sendRawSignal\<close> sets the transmitting flag and transfers one frame: the
  command byte 0x02, the frequency as a byte, the byte N/2, the N duration bytes
  unchanged, one byte 0x00 and the terminator 0x16, so 3 + N + 2 bytes. The second byte
  is the frequency itself whenever the frequency is a whole number below 256. The
  template checked against the response is 0x55, 0x02, the frequency and N/2. The
  completion function clears the flag and reports no error exactly when the response
  starts with 0x55, 0x02 and the frequency and, for N above 0, continues with N/2;
  otherwise it reports the invalid-response error. For N = 0 the fourth byte is not
  compared.
\<close>

theorem tx_frame_and_echo:
  assumes "0 < frequency" and "even (length ds)" and "length ds \<le> 200"
  shows "sendRawSignal st frequency ds cb =
           (st\<lparr>transmitting := True\<rparr>, [Transfer (constructTXPacket frequency ds)])
       \<and> constructTXPacket frequency ds =
           [2, to_uint8 frequency, of_nat (length ds div 2)] @ ds @ [0, 0x16]
       \<and> length (constructTXPacket frequency ds) = 3 + length ds + 2
       \<and> unat (constructTXPacket frequency ds ! 2) = length ds div 2
       \<and> (\<forall>k<256. frequency = of_nat k \<longrightarrow> unat (constructTXPacket frequency ds ! 1) = k)
       \<and> tx_expected frequency ds =
           [JNum 0x55, JNum 2, JNum frequency, JNum (of_nat (length ds div 2))]
       \<and> sendRawSignal_spiComplete st' frequency ds cb (Response r) =
           (if buf_get r 0 = JNum 0x55 \<and> buf_get r 1 = JNum 0x02 \<and> buf_get r 2 = JNum frequency
               \<and> (ds = [] \<or> buf_get r 3 = JNum (of_nat (length ds div 2)))
            then (st'\<lparr>transmitting := False\<rparr>, if cb then [Callback None] else [], Done None)
            else (st'\<lparr>transmitting := False\<rparr>,
                  if cb then [Callback (Some InvalidRawResponse)] else [],
                  Done (Some InvalidRawResponse)))"
proof -
  have frame: "constructTXPacket frequency ds =
           [2, to_uint8 frequency, of_nat (length ds div 2)] @ ds @ [0, 0x16]"
    using assms(2) by (rule constructTXPacket_even)
  have send: "sendRawSignal st frequency ds cb =
           (st\<lparr>transmitting := True\<rparr>, [Transfer (constructTXPacket frequency ds)])"
    using assms by (simp add: sendRawSignal_def MAX_SIGNAL_DURATION_def)
  have len: "length (constructTXPacket frequency ds) = 3 + length ds + 2"
    by (simp add: frame)
  have half: "unat (constructTXPacket frequency ds ! 2) = length ds div 2"
    using assms(3) by (simp add: frame unat_of_nat)
  have freq: "\<forall>k<256. frequency = of_nat k \<longrightarrow> unat (constructTXPacket frequency ds ! 1) = k"
  proof (intro allI impI)
    fix k :: nat
    assume k: "k < 256" and f: "frequency = of_nat k"
    have "constructTXPacket frequency ds ! 1 = to_uint8 frequency"
      by (simp add: frame)
    then have "constructTXPacket frequency ds ! 1 = of_nat k"
      by (simp only: f to_uint8_of_nat)
    then show "unat (constructTXPacket frequency ds ! 1) = k"
      using k by (simp add: unat_of_nat)
  qed
  have tmpl: "tx_expected frequency ds =
           [JNum 0x55, JNum 2, JNum frequency, JNum (of_nat (length ds div 2))]"
  proof -
    from assms(2) obtain k where k: "length ds = 2 * k" by (auto elim: evenE)
    show ?thesis by (simp add: tx_expected_def PACKET_CONF_def IR_TX_CMD_def k)
  qed
  have echo: "sendRawSignal_spiComplete st' frequency ds cb (Response r) =
           (if buf_get r 0 = JNum 0x55 \<and> buf_get r 1 = JNum 0x02 \<and> buf_get r 2 = JNum frequency
               \<and> (ds = [] \<or> buf_get r 3 = JNum (of_nat (length ds div 2)))
            then (st'\<lparr>transmitting := False\<rparr>, if cb then [Callback None] else [], Done None)
            else (st'\<lparr>transmitting := False\<rparr>,
                  if cb then [Callback (Some InvalidRawResponse)] else [],
                  Done (Some InvalidRawResponse)))"
    unfolding sendRawSignal_spiComplete_def validate_reply_def reply.case sum.case Let_def
      tx_echo_check [OF assms(1,2)]
    by simp
  show ?thesis by (intro conjI send frame len half freq tmpl echo)
qed

theorem tx_frame_and_echo_witness:
  "sendRawSignal new_driver 38 [0x01, 0x2C, 0x00, 0x64] True =
     (new_driver\<lparr>transmitting := True\<rparr>,
      [Transfer [2, 38, 2, 0x01, 0x2C, 0x00, 0x64, 0, 0x16]])
   \<and> length (constructTXPacket 38 [0x01, 0x2C, 0x00, 0x64]) = 9
   \<and> unat (constructTXPacket 38 [0x01, 0x2C, 0x00, 0x64] ! 1) = 38
   \<and> tx_expected 38 [0x01, 0x2C, 0x00, 0x64] = [JNum 0x55, JNum 2, JNum 38, JNum 2]
   \<and> sendRawSignal_spiComplete (new_driver\<lparr>transmitting := True\<rparr>) 38 [0x01, 0x2C, 0x00, 0x64]
        True (Response [0x55, 0x02, 38, 2]) = (new_driver, [Callback None], Done None)
   \<and> sendRawSignal_spiComplete (new_driver\<lparr>transmitting := True\<rparr>) 38 [0x01, 0x2C, 0x00, 0x64]
        True (Response [0x55, 0x02, 38, 3]) =
        (new_driver, [Callback (Some InvalidRawResponse)], Done (Some InvalidRawResponse))"
proof -
  let ?ds = "[0x01, 0x2C, 0x00, 0x64] :: byte list"
  let ?st = "new_driver\<lparr>transmitting := True\<rparr>"
  have h: "0 < (38::rat)" "even (length ?ds)" "length ?ds \<le> 200"
    by simp_all
  note good = tx_frame_and_echo [OF h, of new_driver True ?st "[0x55, 0x02, 38, 2]"]
  note bad = tx_frame_and_echo [OF h, of new_driver True ?st "[0x55, 0x02, 38, 3]"]
  from good have frame: "constructTXPacket 38 ?ds =
      [2, to_uint8 38, of_nat (length ?ds div 2)] @ ?ds @ [0, 0x16]"
    by (elim conjE)
  then have frame': "constructTXPacket 38 ?ds = [2, 38, 2, 0x01, 0x2C, 0x00, 0x64, 0, 0x16]"
    by simp
  from good have "sendRawSignal new_driver 38 ?ds True =
      (?st, [Transfer (constructTXPacket 38 ?ds)])"
    by (rule conjunct1)
  then have c1: "sendRawSignal new_driver 38 ?ds True =
      (?st, [Transfer [2, 38, 2, 0x01, 0x2C, 0x00, 0x64, 0, 0x16]])"
    by (simp only: frame')
  from good have "length (constructTXPacket 38 ?ds) = 3 + length ?ds + 2"
    by (elim conjE)
  then have c2: "length (constructTXPacket 38 ?ds) = 9" by simp
  have c3: "unat (constructTXPacket 38 ?ds ! 1) = 38"
    by (simp add: frame')
  from good have "tx_expected 38 ?ds =
      [JNum 0x55, JNum 2, JNum 38, JNum (of_nat (length ?ds div 2))]"
    by (elim conjE)
  then have c4: "tx_expected 38 ?ds = [JNum 0x55, JNum 2, JNum 38, JNum 2]" by simp
  from good have "sendRawSignal_spiComplete ?st 38 ?ds True (Response [0x55, 0x02, 38, 2]) =
      (if buf_get [0x55, 0x02, 38, 2] 0 = JNum 0x55 \<and> buf_get [0x55, 0x02, 38, 2] 1 = JNum 0x02
          \<and> buf_get [0x55, 0x02, 38, 2] 2 = JNum 38
          \<and> (?ds = [] \<or> buf_get [0x55, 0x02, 38, 2] 3 = JNum (of_nat (length ?ds div 2)))
       then (?st\<lparr>transmitting := False\<rparr>, if True then [Callback None] else [], Done None)
       else (?st\<lparr>transmitting := False\<rparr>,
             if True then [Callback (Some InvalidRawResponse)] else [],
             Done (Some InvalidRawResponse)))"
    by (elim conjE)
  then have c5: "sendRawSignal_spiComplete ?st 38 ?ds True (Response [0x55, 0x02, 38, 2]) =
      (new_driver, [Callback None], Done None)"
    by (simp add: buf_get_def new_driver_def)
  from bad have "sendRawSignal_spiComplete ?st 38 ?ds True (Response [0x55, 0x02, 38, 3]) =
      (if buf_get [0x55, 0x02, 38, 3] 0 = JNum 0x55 \<and> buf_get [0x55, 0x02, 38, 3] 1 = JNum 0x02
          \<and> buf_get [0x55, 0x02, 38, 3] 2 = JNum 38
          \<and> (?ds = [] \<or> buf_get [0x55, 0x02, 38, 3] 3 = JNum (of_nat (length ?ds div 2)))
       then (?st\<lparr>transmitting := False\<rparr>, if True then [Callback None] else [], Done None)
       else (?st\<lparr>transmitting := False\<rparr>,
             if True then [Callback (Some InvalidRawResponse)] else [],
             Done (Some InvalidRawResponse)))"
    by (elim conjE)
  then have c6: "sendRawSignal_spiComplete ?st 38 ?ds True (Response [0x55, 0x02, 38, 3]) =
      (new_driver, [Callback (Some InvalidRawResponse)], Done (Some InvalidRawResponse))"
    by (simp add: buf_get_def new_driver_def)
  show ?thesis by (intro conjI c1 c2 c3 c4 c5 c6)
qed

text \<open>
  With an empty duration buffer (N = 0) the template ends in the number 0, which the
  validation skips: the echoed word count 99 is accepted without error.
\<close>

theorem tx_empty_buffer_echo_counterexample:
  "sendRawSignal new_driver 38 [] True =
     (new_driver\<lparr>transmitting := True\<rparr>, [Transfer [0x02, 38, 0x00, 0x00, 0x16]])
   \<and> sendRawSignal_spiComplete (new_driver\<lparr>transmitting := True\<rparr>) 38 [] True
        (Response [0x55, 0x02, 38, 99]) = (new_driver, [Callback None], Done None)"
  by (simp add: sendRawSignal_def MAX_SIGNAL_DURATION_def constructTXPacket_def
        IR_TX_CMD_def FIN_CONF_def sendRawSignal_spiComplete_def validate_reply_def
        tx_expected_def validateResponse_eval buf_get_def PACKET_CONF_def new_driver_def)

lemma sendRawSignal_too_long:
  assumes "0 < frequency" and "200 < length ds"
  shows "sendRawSignal st frequency ds cb =
           (st, if cb then [Callback (Some InvalidBufferLength)] else [])"
  using assms by (simp add: sendRawSignal_def MAX_SIGNAL_DURATION_def)

lemma sendRawSignal_odd_length:
  assumes "0 < frequency" and "odd (length ds)" and "length ds \<le> 200"
  shows "sendRawSignal st frequency ds True =
           (st\<lparr>transmitting := True\<rparr>,
            [Callback (Some InvalidBufferSize), Transfer (constructTXPacket frequency ds)])"
  using assms by (simp add: sendRawSignal_def MAX_SIGNAL_DURATION_def odd_iff_mod_2_eq_one)

text \<open>
  C1. With frequency 38 and a duration buffer of one byte (an odd length),
  \<open>sendRawSignal\<close> calls the callback with the buffer-size error and then goes on: it
  sets the transmitting flag and transfers a frame.
\<close>

theorem sendRawSignal_odd_length_transfers:
  "sendRawSignal new_driver 38 [0x01] True =
     (new_driver\<lparr>transmitting := True\<rparr>,
      [Callback (Some InvalidBufferSize), Transfer [0x02, 38, 0x00, 0x01, 0x00, 0x16]])"
  by (simp add: sendRawSignal_def MAX_SIGNAL_DURATION_def constructTXPacket_def
        IR_TX_CMD_def FIN_CONF_def to_uint8_def js_trunc_def)

subsection \<open>RX duration fetcher and interrupt handler\<close>

lemma js_eq_byte_numeral:
  "js_eq (JNum (of_nat (unat (b :: byte)))) (JNum FIN_CONF) \<longleftrightarrow> b = 0x16"
proof -
  have "(of_nat (unat b) :: rat) = of_nat 22 \<longleftrightarrow> unat b = 22"
    by (rule of_nat_eq_iff)
  moreover have "unat b = 22 \<longleftrightarrow> b = 0x16"
    by (simp add: word_unat_eq_iff)
  ultimately show ?thesis by (simp add: FIN_CONF_def)
qed

lemma fetch_out_of_frame:
  assumes "response = [] \<or> last response \<noteq> 0x16"
  shows "fetch_spiComplete (Response response) = ([], Done ())"
proof (cases "response = []")
  case True
  then show ?thesis by (simp add: fetch_spiComplete_def)
next
  case False
  with assms have l: "last response \<noteq> 0x16" by simp
  have "buf_get response (length response - 1) = JNum (of_nat (unat (last response)))"
    using False by (simp add: buf_get_def last_conv_nth)
  then show ?thesis
    using False l js_eq_byte_numeral [of "last response"]
    by (simp add: fetch_spiComplete_def)
qed

lemma rx_durations_wellformed:
  "rx_durations ([h0, h1, h2, g0, g1] @ ds @ [fin]) = ds"
  by (simp add: rx_durations_def buf_slice_def)

lemma IRQHandler_deferred:
  "transmitting st \<Longrightarrow> IRQHandler st replies = (st, [SetTimeout 500], replies)"
  by (simp add: IRQHandler_def)

lemma floor_nat_double: "nat \<lfloor>(of_nat n :: rat) * 2\<rfloor> = 2 * n"
proof -
  have "(of_nat n :: rat) * 2 = of_int (int (2 * n))" by simp
  then have "\<lfloor>(of_nat n :: rat) * 2\<rfloor> = int (2 * n)"
    by (simp only: floor_of_int)
  then show ?thesis by simp
qed

lemma IRQHandler_out_of_frame:
  assumes "\<not> transmitting st" and "validateResponse a rx_avail_expected" and "4 \<le> length a"
    and "response = [] \<or> last response \<noteq> 0x16"
  shows "IRQHandler st (Response a # Response response # rest) =
           (st\<lparr>irq_listeners := irq_listeners st + 1\<rparr>,
            [Transfer rx_avail_query, Transfer (rx_packet (2 * unat (a ! 3))), IrqOnce], rest)"
proof -
  have "nat \<lfloor>(unsigned (a ! 3) :: rat) * 2\<rfloor> = 2 * unat (a ! 3)"
    using floor_nat_double [of "unat (a ! 3)"] by simp
  then show ?thesis
    using assms(1-3) fetch_out_of_frame [OF assms(4)]
    by (simp add: IRQHandler_def buf_get_def)
qed

lemma fetch_terminated_raises:
  assumes "response \<noteq> []" and "last response = 0x16"
  shows "fetch_spiComplete (Response response) = ([], Threw ReferenceError)"
proof -
  have "buf_get response (length response - 1) = JNum (of_nat (unat (last response)))"
    using assms(1) by (simp add: buf_get_def last_conv_nth)
  then show ?thesis
    using assms js_eq_byte_numeral [of "last response"]
    by (simp add: fetch_spiComplete_def global_data_def)
qed

lemma IRQHandler_invalid_availability:
  assumes "\<not> transmitting st" and "\<not> validateResponse a rx_avail_expected"
  shows "IRQHandler st (Response a # rest) = (st, [Transfer rx_avail_query], rest)"
  using assms by (simp add: IRQHandler_def)

text \<open>
  C2. A well-formed fetch response (header echo 0x04 0x00 0x00, two gap bytes, the
  duration bytes 0xAA 0xBB, terminator 0x16) passes the terminator test; the function
  then raises a ReferenceError at line 189 and emits no \<open>data\<close> event.
\<close>

theorem fetch_wellformed_raises:
  "fetch_spiComplete (Response [0x04, 0x00, 0x00, 0x11, 0x22, 0xAA, 0xBB, 0x16])
     = ([], Threw ReferenceError)"
  by (simp add: fetch_spiComplete_def buf_get_def FIN_CONF_def global_data_def)

text \<open>
  C5. The interrupt fires with one listener armed and no transmission in progress, and
  the availability response does not echo 0x55: the handler issues the availability
  query and nothing else. No listener is armed afterwards.
\<close>

theorem irq_invalid_availability_arms_none:
  "irq_high (new_driver\<lparr>irq_listeners := 1\<rparr>) [Response [0x00, 0x00, 0x00, 0x00]]
     = (new_driver, [Transfer [0x03, 0x00, 0x00, 0x00]], [])"
  by (simp add: irq_high_def IRQHandler_def new_driver_def rx_avail_expected_def
        rx_avail_query_def validateResponse_eval buf_get_def PACKET_CONF_def IR_RX_AVAIL_CMD_def)

subsection \<open>Listening\<close>

text \<open>
  C8, as amended. Starts and stops are gated on the number of \<open>data\<close> listeners
  only. Subscribing while at least one listener is registered issues no transfer, the
  first subscription issues one RX_START; removing the last listener issues exactly one
  RX_STOP, any other removal issues none. \<open>setListening\<close> itself issues its transfer
  whatever the value of \<open>listening\<close> is.
\<close>

theorem listener_count_gating:
  "(0 < data_listeners st \<longrightarrow>
      addListener st ''data'' = (st\<lparr>data_listeners := data_listeners st + 1\<rparr>, []))
   \<and> (data_listeners st = 0 \<longrightarrow>
      addListener st ''data'' = (st\<lparr>data_listeners := 1\<rparr>, [Transfer [0x05, 0x00, 0x00]]))
   \<and> (data_listeners st = 1 \<longrightarrow>
      removeListener st ''data'' = (st\<lparr>data_listeners := 0\<rparr>, [Transfer [0x06, 0x00, 0x00]]))
   \<and> (data_listeners st \<noteq> 1 \<longrightarrow> snd (removeListener st ''data'') = [])
   \<and> setListening True = [Transfer [0x05, 0x00, 0x00]]
   \<and> setListening False = [Transfer [0x06, 0x00, 0x00]]"
  by (simp add: addListener_def on_newListener_def removeListener_def on_removeListener_def
        setListening_def setListening_cmd_def RX_START_CMD_def RX_STOP_CMD_def Let_def)

theorem listener_count_gating_witness:
  "addListener (new_driver\<lparr>data_listeners := 1\<rparr>) ''data''
     = (new_driver\<lparr>data_listeners := 2\<rparr>, [])
   \<and> addListener new_driver ''data''
     = (new_driver\<lparr>data_listeners := 1\<rparr>, [Transfer [0x05, 0x00, 0x00]])
   \<and> removeListener (new_driver\<lparr>data_listeners := 1\<rparr>) ''data''
     = (new_driver, [Transfer [0x06, 0x00, 0x00]])
   \<and> snd (removeListener (new_driver\<lparr>data_listeners := 2\<rparr>) ''data'') = []"
  using listener_count_gating [of "new_driver\<lparr>data_listeners := 1\<rparr>"]
    listener_count_gating [of new_driver]
    listener_count_gating [of "new_driver\<lparr>data_listeners := 2\<rparr>"]
  by (simp add: new_driver_def)

text \<open>
  A stop that is redundant reaches the transport: after a first subscription whose
  RX_START response was rejected, \<open>listening\<close> is still false, and removing that
  listener transfers RX_STOP.
\<close>

theorem redundant_stop_reaches_transport:
  "\<not> listening (fst (listeningSet (fst (addListener new_driver ''data'')) True False
                        (Response [0x00, 0x00, 0x00])))
   \<and> snd (removeListener (fst (listeningSet (fst (addListener new_driver ''data'')) True False
                               (Response [0x00, 0x00, 0x00]))) ''data'')
       = [Transfer [0x06, 0x00, 0x00]]"
  by (simp add: addListener_def on_newListener_def listeningSet_def validate_reply_def
        validateResponse_eval buf_get_def PACKET_CONF_def setListening_cmd_def RX_START_CMD_def
        RX_STOP_CMD_def removeListener_def on_removeListener_def setListening_def new_driver_def)

subsection \<open>Firmware sync\<close>

lemma crc_trace:
  "set (fst (readFirmwareCRC retries rs)) \<subseteq> {Transfer crc_query, FirmwareUpdate, SetTimeout 500}"
  "set (fst (updateFirmware rs)) \<subseteq> {Transfer crc_query, FirmwareUpdate, SetTimeout 500}"
  by (induction retries rs and rs rule: readFirmwareCRC_updateFirmware.induct)
     (auto simp: firmware_update_def split: prod.splits if_splits)

lemma checkForFirmwareUpdate_trace:
  "set (fst (checkForFirmwareUpdate version rs)) \<subseteq>
     {Transfer crc_query, FirmwareUpdate, SetTimeout 500}"
  using crc_trace(2) [of rs] by (simp add: checkForFirmwareUpdate_def)

lemma readFirmwareCRC_match:
  assumes "validateResponse res crc_expected" and "length res = 4"
  shows "readFirmwareCRC retries (Response res # rs) = ([Transfer crc_query], Done None, rs)"
  using assms by simp

lemma readFirmwareCRC_mismatch_retry:
  assumes "crc_mismatch m" and "retries - 1 > 0"
  shows "readFirmwareCRC retries (m # rs) =
           (case readFirmwareCRC (retries - 1) rs of
              (ev, c, rest) \<Rightarrow> (Transfer crc_query # ev, c, rest))"
proof -
  from assms(1) obtain res where m: "m = Response res"
    by (cases m) (simp_all add: crc_mismatch_def)
  from assms(1) have bad: "(validateResponse res crc_expected \<and> length res = 4) = False"
    by (simp add: m crc_mismatch_def)
  show ?thesis
    unfolding m readFirmwareCRC.simps(3) bad using assms(2) by simp
qed

lemma readFirmwareCRC_mismatch_escalate:
  assumes "crc_mismatch m" and "\<not> retries - 1 > 0"
  shows "readFirmwareCRC retries (m # rs) =
           (case readFirmwareCRC 5 rs of
              (ev, c, rest) \<Rightarrow>
                (Transfer crc_query # FirmwareUpdate # SetTimeout 500 # ev, c, rest))"
proof -
  from assms(1) obtain res where m: "m = Response res"
    by (cases m) (simp_all add: crc_mismatch_def)
  from assms(1) have bad: "(validateResponse res crc_expected \<and> length res = 4) = False"
    by (simp add: m crc_mismatch_def)
  show ?thesis
    unfolding m readFirmwareCRC.simps(3) updateFirmware.simps bad
    using assms(2) by (simp add: firmware_update_def split: prod.splits)
qed

lemma crc_all_mismatch_count:
  assumes "list_all crc_mismatch replies" and "0 < r"
  shows "count_list (fst (readFirmwareCRC (of_nat r) replies)) FirmwareUpdate =
           (if length replies < r then 0 else 1 + (length replies - r) div 5)"
  using assms
proof (induction replies arbitrary: r)
  case Nil
  then show ?case by simp
next
  case (Cons m rs)
  from Cons.prems have mm: "crc_mismatch m" and rest: "list_all crc_mismatch rs"
    by simp_all
  show ?case
  proof (cases "r = 1")
    case True
    have five: "count_list (fst (readFirmwareCRC 5 rs)) FirmwareUpdate =
           (if length rs < 5 then 0 else 1 + (length rs - 5) div 5)"
      using Cons.IH [OF rest, of 5] by simp
    have "\<not> (of_nat r :: rat) - 1 > 0" using True by simp
    from readFirmwareCRC_mismatch_escalate [OF mm this]
    have "count_list (fst (readFirmwareCRC (of_nat r) (m # rs))) FirmwareUpdate =
            1 + count_list (fst (readFirmwareCRC 5 rs)) FirmwareUpdate"
      by (simp split: prod.splits)
    also have "\<dots> = 1 + length rs div 5"
      unfolding five by (simp add: le_div_geq)
    finally show ?thesis using True by simp
  next
    case False
    with Cons.prems have r: "1 < r" by simp
    then have pos: "(of_nat r :: rat) - 1 > 0" by simp
    have eq: "(of_nat r :: rat) - 1 = of_nat (r - 1)" using r by (simp add: of_nat_diff)
    from readFirmwareCRC_mismatch_retry [OF mm pos]
    have "count_list (fst (readFirmwareCRC (of_nat r) (m # rs))) FirmwareUpdate =
            count_list (fst (readFirmwareCRC (of_nat (r - 1)) rs)) FirmwareUpdate"
      unfolding eq by (simp split: prod.splits)
    also have "\<dots> = (if length rs < r - 1 then 0 else 1 + (length rs - (r - 1)) div 5)"
      using Cons.IH [OF rest, of "r - 1"] r by simp
    finally show ?thesis using r by (auto simp: Suc_diff_le)
  qed
qed

lemma crc_budget_exhausted:
  assumes "list_all crc_mismatch ms" and "length ms = r" and "0 < r"
  shows "readFirmwareCRC (of_nat r) (ms @ rs) =
           (case readFirmwareCRC 5 rs of
              (ev, c, rest) \<Rightarrow>
                (replicate r (Transfer crc_query) @ FirmwareUpdate # SetTimeout 500 # ev, c, rest))"
  using assms
proof (induction ms arbitrary: r)
  case Nil
  then show ?case by simp
next
  case (Cons m ms)
  from Cons.prems have mm: "crc_mismatch m" and rest: "list_all crc_mismatch ms"
    by simp_all
  show ?case
  proof (cases "r = 1")
    case True
    with Cons.prems have "ms = []" by simp
    moreover have "\<not> (of_nat r :: rat) - 1 > 0" using True by simp
    ultimately show ?thesis
      using readFirmwareCRC_mismatch_escalate [OF mm, of "of_nat r" rs] True
      by (simp split: prod.splits)
  next
    case False
    with Cons.prems have r: "1 < r" by simp
    then have pos: "(of_nat r :: rat) - 1 > 0" by simp
    have eq: "(of_nat r :: rat) - 1 = of_nat (r - 1)" using r by (simp add: of_nat_diff)
    have len: "length ms = r - 1" using Cons.prems by simp
    have ih: "readFirmwareCRC (of_nat (r - 1)) (ms @ rs) =
           (case readFirmwareCRC 5 rs of
              (ev, c, rest) \<Rightarrow>
                (replicate (r - 1) (Transfer crc_query) @ FirmwareUpdate # SetTimeout 500 # ev,
                 c, rest))"
      using Cons.IH [OF rest len] r by simp
    have rep: "replicate r (Transfer crc_query) =
                 Transfer crc_query # replicate (r - 1) (Transfer crc_query)"
      using r by (cases r) simp_all
    show ?thesis
      using readFirmwareCRC_mismatch_retry [OF mm pos, of "ms @ rs"]
      unfolding eq ih rep by (simp split: prod.splits)
  qed
qed

lemma crc_zeros_mismatch: "crc_mismatch (Response [0x00, 0x00, 0x00, 0x00])"
  by (simp add: crc_mismatch_def validateResponse_eval crc_expected_def buf_get_def
        CRC_CMD_def CRC_HIGH_def CRC_LOW_def)

lemma crc_good_match: "validateResponse [x, 0x06, 0x79, 0xA8] crc_expected"
  by (simp add: validateResponse_eval crc_expected_def buf_get_def
        CRC_CMD_def CRC_HIGH_def CRC_LOW_def)

text \<open>
  C4, as amended. In a CRC check with a positive budget r whose queries all mismatch,
  the r-th mismatch triggers a reflash, the settle delay and a fresh check with budget
  5, and that check escalates in the same way: after n mismatches the invocation has
  triggered no reflash when n < r and 1 + (n - r) div 5 reflashes otherwise. When the
  query after the r-th mismatch matches, the invocation ends with exactly one reflash
  and reports success.
\<close>

theorem crc_escalation:
  "(0 < r \<and> list_all crc_mismatch ms \<longrightarrow>
      count_list (fst (readFirmwareCRC (of_nat r) ms)) FirmwareUpdate =
        (if length ms < r then 0 else 1 + (length ms - r) div 5))
   \<and> (0 < r \<and> list_all crc_mismatch ms \<and> length ms = r \<longrightarrow>
      readFirmwareCRC (of_nat r) (ms @ Response [x, 0x06, 0x79, 0xA8] # rest) =
        (replicate r (Transfer crc_query) @ [FirmwareUpdate, SetTimeout 500, Transfer crc_query],
         Done None, rest))"
proof -
  have "readFirmwareCRC 5 (Response [x, 0x06, 0x79, 0xA8] # rest) =
          ([Transfer crc_query], Done None, rest)"
    by (rule readFirmwareCRC_match) (simp_all add: crc_good_match)
  then show ?thesis
    using crc_all_mismatch_count [of ms r]
      crc_budget_exhausted [of ms r "Response [x, 0x06, 0x79, 0xA8] # rest"]
    by simp
qed

theorem crc_escalation_witness:
  "count_list (fst (readFirmwareCRC 5 (replicate 5 (Response [0x00, 0x00, 0x00, 0x00]))))
     FirmwareUpdate = 1
   \<and> readFirmwareCRC 5
        (replicate 5 (Response [0x00, 0x00, 0x00, 0x00]) @ [Response [0x55, 0x06, 0x79, 0xA8]]) =
        (replicate 5 (Transfer crc_query) @ [FirmwareUpdate, SetTimeout 500, Transfer crc_query],
         Done None, [])"
proof -
  have "list_all crc_mismatch (replicate 5 (Response [0x00, 0x00, 0x00, 0x00]))"
    by (simp add: list_all_iff crc_zeros_mismatch)
  then show ?thesis
    using crc_escalation [of 5 "replicate 5 (Response [0x00, 0x00, 0x00, 0x00])" "0x55" "[]"]
    by simp
qed

text \<open>
  Ten mismatches in a row, with budget 5, trigger two reflashes.
\<close>

theorem crc_ten_mismatches_two_reflashes:
  "count_list (fst (readFirmwareCRC 5 (replicate 10 (Response [0x00, 0x00, 0x00, 0x00]))))
     FirmwareUpdate = 2"
proof -
  have "list_all crc_mismatch (replicate 10 (Response [0x00, 0x00, 0x00, 0x00]))"
    by (simp add: list_all_iff crc_zeros_mismatch)
  from crc_all_mismatch_count [OF this, of 5] show ?thesis by simp
qed

subsection \<open>Handshake and constructor\<close>

lemma establishCommunication_trace:
  "set (fst (snd (establishCommunication st retries rs))) \<subseteq> {Transfer firmware_query}"
proof (induction rs arbitrary: retries)
  case Nil
  then show ?case by simp
next
  case (Cons r rs)
  obtain st' ev c rest where rec:
    "establishCommunication st (retries - 1) rs = (st', ev, c, rest)"
    by (cases "establishCommunication st (retries - 1) rs") auto
  have "set ev \<subseteq> {Transfer firmware_query}"
    using Cons.IH [of "retries - 1"] rec by simp
  then show ?case
    using rec by (auto split: sum.splits)
qed

lemma filter_empty_subset:
  assumes "set ev \<subseteq> S" and "\<And>e. e \<in> S \<Longrightarrow> \<not> P e"
  shows "filter P ev = []"
  using assms by (auto simp: filter_empty_conv)

lemma count_list_zero_subset:
  assumes "set ev \<subseteq> S" and "x \<notin> S"
  shows "count_list ev x = 0"
  using assms by (auto simp: count_list_0_iff)

lemma listeningSet_stop_events:
  assumes "listeningSet st False cb r = (st', ev, c)"
  shows "connected st' = connected st"
    and "set ev \<subseteq> {IrqRemoveAll, Callback None, Callback (Some InvalidRxOnOff)}"
  using assms
  by (auto simp: listeningSet_def Let_def split: sum.splits if_splits)

lemma establishCommunication_three_failures:
  assumes "isl (getFirmwareVersion_spiComplete r1)"
    and "isl (getFirmwareVersion_spiComplete r2)"
    and "isl (getFirmwareVersion_spiComplete r3)"
  shows "establishCommunication st 3 (r1 # r2 # r3 # rest) =
           (st, [Transfer firmware_query, Transfer firmware_query, Transfer firmware_query],
            Done (Inl CantConnect), rest)"
  using assms by (auto simp: isl_def)

lemma establishCommunication_fail_fail_success:
  assumes "isl (getFirmwareVersion_spiComplete r1)"
    and "isl (getFirmwareVersion_spiComplete r2)"
    and "getFirmwareVersion_spiComplete r3 = Inr version"
  shows "establishCommunication st 3 (r1 # r2 # r3 # rest) =
           (st\<lparr>connected := True\<rparr>,
            [Transfer firmware_query, Transfer firmware_query, Transfer firmware_query],
            Done (Inr version), rest)"
  using assms by (auto simp: isl_def)

lemma Infrared_after_handshake:
  assumes hs: "establishCommunication new_driver 3 replies = (st1, ev1, Done (Inr version), rest1)"
    and conn: "connected st1"
    and ev1: "filter is_firmware_check ev1 = []"
  shows "connected (fst (Infrared cb n replies))
       \<and> filter is_firmware_check (snd (Infrared cb n replies)) = [CheckForFirmwareUpdate version]"
proof -
  obtain ev2 c2 rest2 where chk: "checkForFirmwareUpdate version rest1 = (ev2, c2, rest2)"
    by (cases "checkForFirmwareUpdate version rest1") auto
  have ev2: "filter is_firmware_check ev2 = []"
    using checkForFirmwareUpdate_trace [of version rest1] chk
    by (intro filter_empty_subset [where S = "{Transfer crc_query, FirmwareUpdate, SetTimeout 500}"])
       auto
  show ?thesis
  proof (cases c2)
    case (Done eo)
    show ?thesis
    proof (cases eo)
      case (Some e)
      then show ?thesis
        using hs chk conn ev1 ev2 Done by (simp add: Infrared_def)
    next
      case None
      show ?thesis
      proof (cases rest2)
        case Nil
        then show ?thesis
          using hs chk conn ev1 ev2 Done None by (simp add: Infrared_def setListening_def)
      next
        case (Cons r rs)
        obtain st4 ev4 c4 where ls:
          "listeningSet (st1\<lparr>connected := True, data_listeners := n,
              irq_listeners := Suc (irq_listeners st1)\<rparr>) False cb r = (st4, ev4, c4)"
          by (cases "listeningSet (st1\<lparr>connected := True, data_listeners := n,
              irq_listeners := Suc (irq_listeners st1)\<rparr>) False cb r") auto
        have "connected st4" using listeningSet_stop_events(1) [OF ls] by simp
        moreover have "filter is_firmware_check ev4 = []"
          using listeningSet_stop_events(2) [OF ls]
          by (intro filter_empty_subset
                [where S = "{IrqRemoveAll, Callback None, Callback (Some InvalidRxOnOff)}"]) auto
        ultimately show ?thesis
          using hs chk conn ev1 ev2 Done None Cons ls
          by (simp add: Infrared_def setListening_def)
      qed
    qed
  qed (use hs chk conn ev1 ev2 in \<open>simp_all add: Infrared_def\<close>)
qed

lemma getFirmwareVersion_eval:
  "getFirmwareVersion_spiComplete Failed = Inl TransferError"
  "getFirmwareVersion_spiComplete (Response [0x00, 0x00, 0x00]) = Inl FirmwareVersionError"
  "getFirmwareVersion_spiComplete (Response [x, 0x01, v]) = Inr v"
  by (simp_all add: getFirmwareVersion_spiComplete_def validateResponse_eval buf_get_def
        FIRMWARE_CMD_def)

text \<open>
  C6. The constructor starts the handshake with budget 3. When the first three
  firmware-version queries fail, it issues exactly these three queries, emits one
  \<open>error\<close> event and leaves the driver unconnected, whatever replies would follow.
  When the first two fail and the third succeeds with a version, the driver is connected
  and \<open>checkForFirmwareUpdate\<close> is called exactly once, with that version.
\<close>

theorem handshake_budget_three:
  "(isl (getFirmwareVersion_spiComplete r1) \<and> isl (getFirmwareVersion_spiComplete r2)
      \<and> isl (getFirmwareVersion_spiComplete r3) \<longrightarrow>
      Infrared cb n (r1 # r2 # r3 # rest) =
        (new_driver,
         [Transfer firmware_query, Transfer firmware_query, Transfer firmware_query,
          Emit_error CantConnect]))
   \<and> (isl (getFirmwareVersion_spiComplete r1) \<and> isl (getFirmwareVersion_spiComplete r2)
      \<and> getFirmwareVersion_spiComplete r3 = Inr version \<longrightarrow>
      connected (fst (Infrared cb n (r1 # r2 # r3 # rest)))
      \<and> filter is_firmware_check (snd (Infrared cb n (r1 # r2 # r3 # rest))) =
          [CheckForFirmwareUpdate version])"
proof (intro conjI impI)
  assume "isl (getFirmwareVersion_spiComplete r1) \<and> isl (getFirmwareVersion_spiComplete r2)
      \<and> isl (getFirmwareVersion_spiComplete r3)"
  then show "Infrared cb n (r1 # r2 # r3 # rest) =
        (new_driver,
         [Transfer firmware_query, Transfer firmware_query, Transfer firmware_query,
          Emit_error CantConnect])"
    using establishCommunication_three_failures [of r1 r2 r3 new_driver rest]
    by (simp add: Infrared_def)
next
  assume a: "isl (getFirmwareVersion_spiComplete r1) \<and> isl (getFirmwareVersion_spiComplete r2)
      \<and> getFirmwareVersion_spiComplete r3 = Inr version"
  then have hs: "establishCommunication new_driver 3 (r1 # r2 # r3 # rest) =
           (new_driver\<lparr>connected := True\<rparr>,
            [Transfer firmware_query, Transfer firmware_query, Transfer firmware_query],
            Done (Inr version), rest)"
    using establishCommunication_fail_fail_success [of r1 r2 r3 version new_driver rest] by simp
  from Infrared_after_handshake [OF hs, of cb n]
  show "connected (fst (Infrared cb n (r1 # r2 # r3 # rest)))"
    and "filter is_firmware_check (snd (Infrared cb n (r1 # r2 # r3 # rest))) =
          [CheckForFirmwareUpdate version]"
    by simp_all
qed

theorem handshake_budget_three_witness:
  "Infrared True 0 [Failed, Response [0x00, 0x00, 0x00], Failed, Response [0x55, 0x01, 0x02]] =
     (new_driver,
      [Transfer firmware_query, Transfer firmware_query, Transfer firmware_query,
       Emit_error CantConnect])
   \<and> connected (fst (Infrared True 0
        [Failed, Response [0x00, 0x00, 0x00], Response [0x55, 0x01, 0x02],
         Response [0x55, 0x06, 0x00]]))
   \<and> filter is_firmware_check (snd (Infrared True 0
        [Failed, Response [0x00, 0x00, 0x00], Response [0x55, 0x01, 0x02],
         Response [0x55, 0x06, 0x00]])) = [CheckForFirmwareUpdate 0x02]"
  using handshake_budget_three [of Failed "Response [0x00, 0x00, 0x00]" Failed True 0
          "[Response [0x55, 0x01, 0x02]]" 0]
    handshake_budget_three [of Failed "Response [0x00, 0x00, 0x00]" "Response [0x55, 0x01, 0x02]"
          True 0 "[Response [0x55, 0x06, 0x00]]" "0x02"]
  by (simp add: getFirmwareVersion_eval)

lemma frames_eval:
  "firmware_query = [0x01, 0x00, 0x00]"
  "crc_query = [0x06, 0x00, 0x00, 0x00]"
  "rx_stop = [0x06, 0x00, 0x00]"
  "setListening False = [Transfer rx_stop]"
  by (simp_all add: firmware_query_def crc_query_def rx_stop_def setListening_def
        setListening_cmd_def FIRMWARE_CMD_def CRC_CMD_def RX_STOP_CMD_def)

lemma listeningSet_response_calls_back:
  assumes "listeningSet st False True (Response res) = (st', ev, c)"
  shows "\<exists>e. Callback e \<in> set ev"
  using assms
  by (auto simp: listeningSet_def validate_reply_def Let_def split: if_splits)

lemma Infrared_success_unfold:
  assumes hs: "establishCommunication new_driver 3 replies = (st1, ev1, Done (Inr version), rest1)"
    and chk: "checkForFirmwareUpdate version rest1 = (ev2, Done None, rest2)"
  shows "snd (Infrared cb n replies) =
           (ev1 @ CheckForFirmwareUpdate version # ev2 @ [Transfer rx_stop, Emit_ready, IrqOnce])
           @ (case rest2 of
                [] \<Rightarrow> []
              | r # _ \<Rightarrow>
                  fst (snd (listeningSet (st1\<lparr>connected := True, data_listeners := n,
                     irq_listeners := Suc (irq_listeners st1)\<rparr>) False cb r)))"
  using hs chk
  by (simp add: Infrared_def frames_eval(4) split: list.splits prod.splits)

lemma Infrared_success_trace:
  assumes hs: "establishCommunication new_driver 3 replies = (st1, ev1, Done (Inr version), rest1)"
    and chk: "checkForFirmwareUpdate version rest1 = (ev2, Done None, rest2)"
  shows "\<exists>ev4. snd (Infrared cb n replies) =
            (ev1 @ CheckForFirmwareUpdate version # ev2 @ [Transfer rx_stop, Emit_ready, IrqOnce]) @ ev4
          \<and> set ev4 \<subseteq> {IrqRemoveAll, Callback None, Callback (Some InvalidRxOnOff)}
          \<and> (cb \<and> (\<exists>res rest3. rest2 = Response res # rest3) \<longrightarrow> (\<exists>e. Callback e \<in> set ev4))"
proof (cases rest2)
  case Nil
  have "snd (Infrared cb n replies) =
          (ev1 @ CheckForFirmwareUpdate version # ev2 @ [Transfer rx_stop, Emit_ready, IrqOnce]) @ []"
    unfolding Infrared_success_unfold [OF hs chk] Nil by simp
  moreover have "set ([] :: event list) \<subseteq> {IrqRemoveAll, Callback None, Callback (Some InvalidRxOnOff)}"
    by simp
  moreover have "cb \<and> (\<exists>res rest3. rest2 = Response res # rest3) \<longrightarrow>
          (\<exists>e. Callback e \<in> set ([] :: event list))"
    using Nil by simp
  ultimately show ?thesis by (intro exI [of _ "[]"] conjI)
next
  case (Cons r rs)
  obtain st4 ev4 c4 where ls:
    "listeningSet (st1\<lparr>connected := True, data_listeners := n,
        irq_listeners := Suc (irq_listeners st1)\<rparr>) False cb r = (st4, ev4, c4)"
    by (cases "listeningSet (st1\<lparr>connected := True, data_listeners := n,
        irq_listeners := Suc (irq_listeners st1)\<rparr>) False cb r") auto
  have tr: "snd (Infrared cb n replies) =
            (ev1 @ CheckForFirmwareUpdate version # ev2 @ [Transfer rx_stop, Emit_ready, IrqOnce]) @ ev4"
    unfolding Infrared_success_unfold [OF hs chk] Cons using ls by simp
  have sub: "set ev4 \<subseteq> {IrqRemoveAll, Callback None, Callback (Some InvalidRxOnOff)}"
    using listeningSet_stop_events(2) [OF ls] .
  have cbk: "cb \<and> (\<exists>res rest3. rest2 = Response res # rest3) \<longrightarrow> (\<exists>e. Callback e \<in> set ev4)"
  proof
    assume a: "cb \<and> (\<exists>res rest3. rest2 = Response res # rest3)"
    then obtain res where "r = Response res" using Cons by auto
    with a ls have "listeningSet (st1\<lparr>connected := True, data_listeners := n,
        irq_listeners := Suc (irq_listeners st1)\<rparr>) False True (Response res) = (st4, ev4, c4)"
      by simp
    then show "\<exists>e. Callback e \<in> set ev4" by (rule listeningSet_response_calls_back)
  qed
  from tr sub cbk show ?thesis by (intro exI [of _ ev4] conjI)
qed

text \<open>
  C9. When the handshake succeeds and the firmware check completes without error, the
  constructor issues the RX_STOP frame 0x06 0x00 0x00 exactly once, whatever the number
  of \<open>data\<close> subscribers is (zero included); that transfer is among the events before
  the first call of the completion callback, and none follows. With a callback passed
  and a response to the RX_STOP transfer delivered, the callback is called.
\<close>

theorem constructor_one_rx_stop:
  assumes hs: "establishCommunication new_driver 3 replies = (st1, ev1, Done (Inr version), rest1)"
    and chk: "checkForFirmwareUpdate version rest1 = (ev2, Done None, rest2)"
  shows "count_list (takeWhile (\<lambda>e. \<not> is_callback e) (snd (Infrared cb n replies)))
           (Transfer rx_stop) = 1
       \<and> count_list (snd (Infrared cb n replies)) (Transfer rx_stop) = 1
       \<and> (cb \<and> (\<exists>res rest3. rest2 = Response res # rest3) \<longrightarrow>
            (\<exists>e. Callback e \<in> set (snd (Infrared cb n replies))))"
proof -
  let ?A = "ev1 @ CheckForFirmwareUpdate version # ev2 @ [Transfer rx_stop, Emit_ready, IrqOnce]"
  from Infrared_success_trace [OF hs chk, of cb n]
  obtain ev4 where all: "snd (Infrared cb n replies) = ?A @ ev4
      \<and> set ev4 \<subseteq> {IrqRemoveAll, Callback None, Callback (Some InvalidRxOnOff)}
      \<and> (cb \<and> (\<exists>res rest3. rest2 = Response res # rest3) \<longrightarrow> (\<exists>e. Callback e \<in> set ev4))" ..
  from all have tr: "snd (Infrared cb n replies) = ?A @ ev4" by (rule conjunct1)
  from all have sub: "set ev4 \<subseteq> {IrqRemoveAll, Callback None, Callback (Some InvalidRxOnOff)}"
    by (elim conjE)
  from all have cbk: "cb \<and> (\<exists>res rest3. rest2 = Response res # rest3) \<longrightarrow> (\<exists>e. Callback e \<in> set ev4)"
    by (elim conjE)
  have s1: "set ev1 \<subseteq> {Transfer firmware_query}"
    using establishCommunication_trace [of new_driver 3 replies] hs by simp
  have s2: "set ev2 \<subseteq> {Transfer crc_query, FirmwareUpdate, SetTimeout 500}"
    using checkForFirmwareUpdate_trace [of version rest1] chk by simp
  have c1: "count_list ev1 (Transfer rx_stop) = 0"
    using s1 by (rule count_list_zero_subset) (simp add: frames_eval)
  have c2: "count_list ev2 (Transfer rx_stop) = 0"
    using s2 by (rule count_list_zero_subset) (simp add: frames_eval)
  have c4: "count_list ev4 (Transfer rx_stop) = 0"
    using sub by (rule count_list_zero_subset) simp
  have "set (takeWhile (\<lambda>e. \<not> is_callback e) ev4)
          \<subseteq> {IrqRemoveAll, Callback None, Callback (Some InvalidRxOnOff)}"
    using sub set_takeWhileD by fastforce
  then have c4': "count_list (takeWhile (\<lambda>e. \<not> is_callback e) ev4) (Transfer rx_stop) = 0"
    by (rule count_list_zero_subset) simp
  have cA: "count_list ?A (Transfer rx_stop) = 1"
    using c1 c2 by simp
  have nocb: "\<not> is_callback e" if "e \<in> set ?A" for e
    using that s1 s2 by auto
  have tw: "takeWhile (\<lambda>e. \<not> is_callback e) (?A @ ev4) = ?A @ takeWhile (\<lambda>e. \<not> is_callback e) ev4"
    by (rule takeWhile_append2) (use nocb in blast)
  have "count_list (takeWhile (\<lambda>e. \<not> is_callback e) (snd (Infrared cb n replies)))
           (Transfer rx_stop) = 1"
    unfolding tr tw using cA c4' by (simp del: append_assoc)
  moreover have "count_list (snd (Infrared cb n replies)) (Transfer rx_stop) = 1"
    unfolding tr using cA c4 by (simp del: append_assoc)
  moreover have "cb \<and> (\<exists>res rest3. rest2 = Response res # rest3) \<longrightarrow>
            (\<exists>e. Callback e \<in> set (snd (Infrared cb n replies)))"
    unfolding tr using cbk by auto
  ultimately show ?thesis by blast
qed

theorem constructor_one_rx_stop_witness:
  "count_list (takeWhile (\<lambda>e. \<not> is_callback e)
       (snd (Infrared True 0 [Response [0x55, 0x01, 0x02], Response [0x55, 0x06, 0x00]])))
     (Transfer rx_stop) = 1
   \<and> count_list (snd (Infrared True 0 [Response [0x55, 0x01, 0x02], Response [0x55, 0x06, 0x00]]))
       (Transfer rx_stop) = 1
   \<and> (\<exists>e. Callback e \<in>
         set (snd (Infrared True 0 [Response [0x55, 0x01, 0x02], Response [0x55, 0x06, 0x00]])))"
proof -
  have hs: "establishCommunication new_driver 3
              [Response [0x55, 0x01, 0x02], Response [0x55, 0x06, 0x00]] =
            (new_driver\<lparr>connected := True\<rparr>, [Transfer firmware_query], Done (Inr 0x02),
             [Response [0x55, 0x06, 0x00]])"
    by (simp add: getFirmwareVersion_eval)
  have chk: "checkForFirmwareUpdate 0x02 [Response [0x55, 0x06, 0x00]] =
            ([], Done None, [Response [0x55, 0x06, 0x00]])"
    by (simp add: checkForFirmwareUpdate_def FIRMWARE_VERSION_def)
  from constructor_one_rx_stop [OF hs chk, of True 0] show ?thesis by simp
qed

subsection \<open>\<open>timerAbstraction\<close>\<close>

lemma word_cat_div_256:
  "(word_cat (word_of_int (v div 256) :: byte) (word_of_int v :: byte) :: 16 word) = word_of_int v"
proof (rule bit_word_eqI)
  fix n :: nat
  assume "n < LENGTH(16)"
  then have n: "n < 16" by simp
  have d: "v div 256 = drop_bit 8 v" by (simp add: drop_bit_eq_div)
  show "bit (word_cat (word_of_int (v div 256) :: byte) (word_of_int v :: byte) :: 16 word) n
          = bit (word_of_int v :: 16 word) n"
    using n unfolding d
    by (auto simp: bit_word_cat_iff bit_word_of_int_iff bit_drop_bit_eq)
qed

lemma int16BE_roundtrip:
  assumes "- 32768 \<le> v" and "v \<le> 32767"
  shows "int16BE (word_of_int (v div 256)) (word_of_int v) = v"
  unfolding int16BE_def word_cat_div_256
  using assms by (simp add: sint_sbintrunc' signed_take_bit_int_eq_self)

lemma timer_loop_scales:
  assumes "even (length b)" and "even i"
    and "\<forall>j. i \<le> 2 * j \<and> 2 * j < length b \<longrightarrow>
           - 655 \<le> int16BE (b ! (2 * j)) (b ! (2 * j + 1))
           \<and> int16BE (b ! (2 * j)) (b ! (2 * j + 1)) \<le> 655"
  shows "\<exists>b'. timer_loop b i = Inr b' \<and> length b' = length b
           \<and> (\<forall>k<i. b' ! k = b ! k)
           \<and> (\<forall>j. i \<le> 2 * j \<and> 2 * j < length b \<longrightarrow>
                 int16BE (b' ! (2 * j)) (b' ! (2 * j + 1)) =
                   50 * int16BE (b ! (2 * j)) (b ! (2 * j + 1)))"
  using assms
proof (induction b i rule: timer_loop.induct)
  case (1 buffer i)
  show ?case
  proof (cases "i < length buffer")
    case False
    then show ?thesis by (simp add: timer_loop.simps [of buffer i])
  next
    case True
    from True "1.prems"(1,2) have i2: "i + 2 \<le> length buffer"
      by presburger
    from "1.prems"(2) obtain j0 where j0: "i = 2 * j0" by (auto elim: evenE)
    define raw where "raw = int16BE (buffer ! i) (buffer ! (i + 1))"
    have rd: "readInt16BE buffer i = Inr raw"
      using i2 by (simp add: readInt16BE_def raw_def)
    have rng: "- 655 \<le> raw \<and> raw \<le> 655"
      using "1.prems"(3) True unfolding raw_def j0 by auto
    define b1 where "b1 = buffer[i := word_of_int (raw * 50 div 256), i + 1 := word_of_int (raw * 50)]"
    have wr: "writeInt16BE buffer (raw * 50) i = Inr b1"
      using rng i2 by (simp add: writeInt16BE_def b1_def)
    have len1: "length b1 = length buffer" by (simp add: b1_def)
    have at_i: "int16BE (b1 ! i) (b1 ! (i + 1)) = 50 * raw"
    proof -
      have "b1 ! i = word_of_int (raw * 50 div 256)" "b1 ! (i + 1) = word_of_int (raw * 50)"
        using i2 by (simp_all add: b1_def)
      then show ?thesis
        using int16BE_roundtrip [of "raw * 50"] rng by simp
    qed
    have other: "b1 ! k = buffer ! k" if "k \<noteq> i" "k \<noteq> i + 1" for k
      using that by (simp add: b1_def)
    have pre1: "\<forall>j. i + 2 \<le> 2 * j \<and> 2 * j < length b1 \<longrightarrow>
           - 655 \<le> int16BE (b1 ! (2 * j)) (b1 ! (2 * j + 1))
           \<and> int16BE (b1 ! (2 * j)) (b1 ! (2 * j + 1)) \<le> 655"
    proof (intro allI impI)
      fix j assume j: "i + 2 \<le> 2 * j \<and> 2 * j < length b1"
      then have "b1 ! (2 * j) = buffer ! (2 * j)" "b1 ! (2 * j + 1) = buffer ! (2 * j + 1)"
        by (simp_all add: other)
      then show "- 655 \<le> int16BE (b1 ! (2 * j)) (b1 ! (2 * j + 1))
           \<and> int16BE (b1 ! (2 * j)) (b1 ! (2 * j + 1)) \<le> 655"
        using "1.prems"(3) j len1 by simp
    qed
    from "1.IH" [OF True rd wr] "1.prems"(1,2) len1 pre1
    obtain b' where res: "timer_loop b1 (i + 2) = Inr b'" and len': "length b' = length b1"
      and keep: "\<forall>k<i + 2. b' ! k = b1 ! k"
      and scaled: "\<forall>j. i + 2 \<le> 2 * j \<and> 2 * j < length b1 \<longrightarrow>
                 int16BE (b' ! (2 * j)) (b' ! (2 * j + 1)) =
                   50 * int16BE (b1 ! (2 * j)) (b1 ! (2 * j + 1))"
      by auto
    have run: "timer_loop buffer i = Inr b'"
      using True rd wr res by (simp add: timer_loop.simps [of buffer i])
    have k: "\<forall>k<i. b' ! k = buffer ! k"
      using keep other by simp
    have sc: "\<forall>j. i \<le> 2 * j \<and> 2 * j < length buffer \<longrightarrow>
                 int16BE (b' ! (2 * j)) (b' ! (2 * j + 1)) =
                   50 * int16BE (buffer ! (2 * j)) (buffer ! (2 * j + 1))"
    proof (intro allI impI)
      fix j assume j: "i \<le> 2 * j \<and> 2 * j < length buffer"
      show "int16BE (b' ! (2 * j)) (b' ! (2 * j + 1)) =
                   50 * int16BE (buffer ! (2 * j)) (buffer ! (2 * j + 1))"
      proof (cases "2 * j = i")
        case True
        then have "b' ! (2 * j) = b1 ! i" "b' ! (2 * j + 1) = b1 ! (i + 1)"
          using keep by simp_all
        then show ?thesis using at_i True by (simp add: raw_def)
      next
        case False
        with j j0 have ge: "i + 2 \<le> 2 * j" by presburger
        then have "b1 ! (2 * j) = buffer ! (2 * j)" "b1 ! (2 * j + 1) = buffer ! (2 * j + 1)"
          by (simp_all add: other)
        then show ?thesis using scaled ge j len1 by simp
      qed
    qed
    from run len' len1 k sc show ?thesis by simp
  qed
qed


lemma int16BE_eval:
  "int16BE 0x00 0x0A = 10" "int16BE 0xFF 0xFE = - 2" "int16BE 0x03 0xE8 = 1000"
  by (simp_all add: int16BE_def word_cat_eq)

text \<open>
  C10, as amended. For a buffer of even length whose big-endian signed 16-bit words all
  lie between -655 and 655, \<open>timerAbstraction\<close> returns the buffer, of unchanged
  length, in which the word at every offset 2j is 50 times the original word. (A
  product outside the signed 16-bit range is refused by \<open>writeInt16BE\<close>.)
\<close>

theorem timerAbstraction_scales:
  assumes "even (length buffer)"
    and "\<forall>j. 2 * j < length buffer \<longrightarrow>
           (\<exists>v. readInt16BE buffer (2 * j) = Inr v \<and> - 655 \<le> v \<and> v \<le> 655)"
  shows "\<exists>b'. timerAbstraction buffer = Inr b' \<and> length b' = length buffer
           \<and> (\<forall>j v. 2 * j < length buffer \<and> readInt16BE buffer (2 * j) = Inr v \<longrightarrow>
                 readInt16BE b' (2 * j) = Inr (50 * v))"
proof -
  have in_buf: "2 * j + 2 \<le> length buffer" if "2 * j < length buffer" for j
    using that assms(1) by presburger
  have rng: "\<forall>j. 0 \<le> 2 * j \<and> 2 * j < length buffer \<longrightarrow>
           - 655 \<le> int16BE (buffer ! (2 * j)) (buffer ! (2 * j + 1))
           \<and> int16BE (buffer ! (2 * j)) (buffer ! (2 * j + 1)) \<le> 655"
  proof (intro allI impI)
    fix j assume j: "0 \<le> 2 * j \<and> 2 * j < length buffer"
    with assms(2) obtain v where "readInt16BE buffer (2 * j) = Inr v" "- 655 \<le> v" "v \<le> 655"
      by blast
    then show "- 655 \<le> int16BE (buffer ! (2 * j)) (buffer ! (2 * j + 1))
           \<and> int16BE (buffer ! (2 * j)) (buffer ! (2 * j + 1)) \<le> 655"
      using in_buf [of j] j by (simp add: readInt16BE_def)
  qed
  from timer_loop_scales [OF assms(1) _ rng]
  obtain b' where run: "timer_loop buffer 0 = Inr b'" and len: "length b' = length buffer"
    and sc: "\<forall>j. 0 \<le> 2 * j \<and> 2 * j < length buffer \<longrightarrow>
                 int16BE (b' ! (2 * j)) (b' ! (2 * j + 1)) =
                   50 * int16BE (buffer ! (2 * j)) (buffer ! (2 * j + 1))"
    by auto
  have "readInt16BE b' (2 * j) = Inr (50 * v)"
    if "2 * j < length buffer \<and> readInt16BE buffer (2 * j) = Inr v" for j v
    using that sc in_buf [of j] len by (simp add: readInt16BE_def)
  with run len show ?thesis by (auto simp: timerAbstraction_def)
qed

theorem timerAbstraction_scales_witness:
  "\<exists>b'. timerAbstraction [0x00, 0x0A, 0xFF, 0xFE] = Inr b' \<and> length b' = 4
      \<and> readInt16BE b' 0 = Inr 500 \<and> readInt16BE b' 2 = Inr (- 100)"
proof -
  have r0: "readInt16BE [0x00, 0x0A, 0xFF, 0xFE] (2 * 0) = Inr 10"
    and r1: "readInt16BE [0x00, 0x0A, 0xFF, 0xFE] (2 * 1) = Inr (- 2)"
    by (simp_all add: readInt16BE_def int16BE_eval)
  have hyp: "\<forall>j. 2 * j < length [0x00, 0x0A, 0xFF, 0xFE :: byte] \<longrightarrow>
           (\<exists>v. readInt16BE [0x00, 0x0A, 0xFF, 0xFE] (2 * j) = Inr v \<and> - 655 \<le> v \<and> v \<le> 655)"
  proof (intro allI impI)
    fix j :: nat assume "2 * j < length [0x00, 0x0A, 0xFF, 0xFE :: byte]"
    then have "j = 0 \<or> j = 1" by auto
    then show "\<exists>v. readInt16BE [0x00, 0x0A, 0xFF, 0xFE] (2 * j) = Inr v \<and> - 655 \<le> v \<and> v \<le> 655"
      using r0 r1 by auto
  qed
  from timerAbstraction_scales [of "[0x00, 0x0A, 0xFF, 0xFE]", OF _ hyp]
  obtain b' where b: "timerAbstraction [0x00, 0x0A, 0xFF, 0xFE] = Inr b'"
    "length b' = length [0x00, 0x0A, 0xFF, 0xFE :: byte]"
    "\<forall>j v. 2 * j < length [0x00, 0x0A, 0xFF, 0xFE :: byte]
        \<and> readInt16BE [0x00, 0x0A, 0xFF, 0xFE] (2 * j) = Inr v \<longrightarrow>
         readInt16BE b' (2 * j) = Inr (50 * v)"
    by auto
  from b(3) r0 have "readInt16BE b' (2 * 0) = Inr (50 * 10)" by (intro b(3) [rule_format]) simp
  moreover from b(3) r1 have "readInt16BE b' (2 * 1) = Inr (50 * (- 2))"
    by (intro b(3) [rule_format]) simp
  ultimately show ?thesis using b(1,2) by simp
qed

text \<open>
  The word 1000 (bytes 0x03 0xE8) gives the product 50000, which does not fit: the call
  ends with a RangeError.
\<close>

theorem timerAbstraction_overflow_counterexample:
  "readInt16BE [0x03, 0xE8] 0 = Inr 1000 \<and> timerAbstraction [0x03, 0xE8] = Inl RangeError"
  by (simp add: timerAbstraction_def timer_loop.simps [of _ 0] readInt16BE_def writeInt16BE_def
        int16BE_eval)

end
